theory Spec2Isabelle
  imports Complex_Main
begin

section \<open>The periodic transmitter (class PeriodicTask)\<close>

text \<open>
  The model follows \<^verbatim>\<open>src/muti_sim.py\<close>. A \<^verbatim>\<open>can.interface.Bus\<close> object is named
  by a number (its identity); \<^verbatim>\<open>None\<close> is \<open>None\<close>. What a call of \<^verbatim>\<open>bus.send\<close>
  does is decided outside the program: the environment \<open>env\<close> gives the outcome of the
  \<open>n\<close>-th call of \<^verbatim>\<open>send\<close> (counted from 0 over the whole run), which either returns
  or raises \<^verbatim>\<open>can.CanError\<close> or another \<^verbatim>\<open>Exception\<close>, carrying the error's text.
  Cycle times are Python floats; they are modelled as real numbers.
\<close>

type_synonym bus_ref = nat

datatype send_outcome = SendOk | RaisesCanError string | RaisesException string

type_synonym bus_env = "nat \<Rightarrow> send_outcome"

text \<open>The arguments of \<^verbatim>\<open>can.Message(arbitration_id=, data=, is_extended_id=)\<close>.\<close>

record message =
  arbitration_id :: int
  msg_data :: "int list"
  is_extended_id :: bool

text \<open>
  What a worker thread does to the world, in order: the lines it prints, the calls of
  \<^verbatim>\<open>bus.send\<close> it makes, and the \<^verbatim>\<open>time.sleep\<close> it completes. \<open>MessageBox\<close> is a dialog
  of the user interface thread.
\<close>

datatype print_line =
    BusNotInitialized                \<comment> \<open>\<^verbatim>\<open>CAN bus is not initialized!\<close>\<close>
  | CanTransmissionError string      \<comment> \<open>\<^verbatim>\<open>CAN transmission error: {e}\<close>\<close>
  | UnexpectedTransmissionError string
      \<comment> \<open>\<^verbatim>\<open>Unexpected error during CAN transmission: {e}\<close>\<close>
  | BusInitializedLine string int    \<comment> \<open>\<^verbatim>\<open>CAN bus initialized on {channel} with bitrate {bitrate}.\<close>\<close>

datatype dialog = ShowWarning string | ShowError string

datatype event =
    Printed print_line
  | BusSendCall bus_ref message
  | Slept nat
  | MessageBox dialog

text \<open>
  Where the thread running \<^verbatim>\<open>_run\<close> stands: at the test of the \<^verbatim>\<open>while\<close>, inside
  \<^verbatim>\<open>time.sleep(1)\<close>, before the \<^verbatim>\<open>with self.task_lock\<close> block, inside
  \<^verbatim>\<open>self._stop_event.wait(timeout)\<close> (with the timeout it was called with), or finished.
  The block under the lock is one step: the lock keeps the sends of different tasks
  apart, and the user interface thread takes no step inside it in this model.
\<close>

datatype pc = LoopTest | Sleeping | Sending | Waiting real | Exited

text \<open>
  The fields of a PeriodicTask. Its two lock references are left out: \<^verbatim>\<open>log_lock\<close>
  is never used, and \<^verbatim>\<open>task_lock\<close> is what makes the block under the lock one step.
\<close>

record periodic_task =
  bus :: "bus_ref option"
  can_id :: int
  data :: "int list"
  is_extended :: bool
  cycle_time :: real
  running :: bool
  thread :: "pc option"       \<comment> \<open>\<open>None\<close>: \<^verbatim>\<open>self.thread is None\<close>\<close>
  stop_event :: bool          \<comment> \<open>the flag of \<^verbatim>\<open>self._stop_event\<close>\<close>

definition PeriodicTask_init ::
  "bus_ref option \<Rightarrow> int \<Rightarrow> int list \<Rightarrow> bool \<Rightarrow> real \<Rightarrow> periodic_task" where
  "PeriodicTask_init b i d e c =
     \<lparr>bus = b, can_id = i, data = d, is_extended = e, cycle_time = c,
      running = True, thread = None, stop_event = False\<rparr>"

fun is_alive :: "pc option \<Rightarrow> bool" where
  "is_alive None = False"
| "is_alive (Some Exited) = False"
| "is_alive (Some _) = True"

definition start :: "periodic_task \<Rightarrow> periodic_task" where
  "start t = (if thread t = None \<or> \<not> is_alive (thread t)
              then t\<lparr>thread := Some LoopTest\<rparr> else t)"

definition make_message :: "periodic_task \<Rightarrow> message" where
  "make_message t =
     \<lparr>arbitration_id = can_id t, msg_data = data t, is_extended_id = is_extended t\<rparr>"

fun is_send :: "event \<Rightarrow> bool" where
  "is_send (BusSendCall _ _) = True"
| "is_send _ = False"



definition n_sends :: "event list \<Rightarrow> nat" where
  "n_sends tr = length (filter is_send tr)"

text \<open>What the \<^verbatim>\<open>try\<close> around \<^verbatim>\<open>self.bus.send(message)\<close> prints for an outcome.\<close>

fun send_prints :: "send_outcome \<Rightarrow> event list" where
  "send_prints SendOk = []"
| "send_prints (RaisesCanError e) = [Printed (CanTransmissionError e)]"
| "send_prints (RaisesException e) = [Printed (UnexpectedTransmissionError e)]"

text \<open>
  One step of the thread that runs \<^verbatim>\<open>_run\<close>, on the task and the trace of the world so
  far. With \<^verbatim>\<open>self.bus\<close> \<^verbatim>\<open>None\<close> under the lock, \<^verbatim>\<open>self.bus.send\<close> raises
  \<^verbatim>\<open>AttributeError\<close>, which \<^verbatim>\<open>except Exception\<close> catches.
\<close>

definition run_step :: "bus_env \<Rightarrow> periodic_task \<times> event list \<Rightarrow> periodic_task \<times> event list" where
  "run_step env s =
     (let t = fst s; tr = snd s in
      case thread t of
        None \<Rightarrow> s
      | Some Exited \<Rightarrow> s
      | Some LoopTest \<Rightarrow>
          if running t then
            (if bus t = None
             then (t\<lparr>thread := Some Sleeping\<rparr>, tr @ [Printed BusNotInitialized])
             else (t\<lparr>thread := Some Sending\<rparr>, tr))
          else (t\<lparr>thread := Some Exited\<rparr>, tr)
      | Some Sleeping \<Rightarrow> (t\<lparr>thread := Some Exited\<rparr>, tr @ [Slept 1])
      | Some Sending \<Rightarrow>
          (case bus t of
             None \<Rightarrow>
               (t\<lparr>thread := Some (Waiting (cycle_time t))\<rparr>,
                tr @ [Printed (UnexpectedTransmissionError ''AttributeError'')])
           | Some b \<Rightarrow>
               (t\<lparr>thread := Some (Waiting (cycle_time t))\<rparr>,
                tr @ [BusSendCall b (make_message t)] @ send_prints (env (n_sends tr))))
      | Some (Waiting timeout) \<Rightarrow>
          if stop_event t then (t\<lparr>thread := Some Exited\<rparr>, tr)
          else (t\<lparr>thread := Some LoopTest\<rparr>, tr))"

fun run_steps :: "bus_env \<Rightarrow> nat \<Rightarrow> periodic_task \<times> event list \<Rightarrow> periodic_task \<times> event list" where
  "run_steps env 0 s = s"
| "run_steps env (Suc k) s = run_steps env k (run_step env s)"

text \<open>
  \<^verbatim>\<open>thread.join()\<close>: the caller waits until the thread has finished. A thread that
  never finishes makes \<open>join\<close> return nothing (\<open>None\<close>).
\<close>

partial_function (option) join ::
  "bus_env \<Rightarrow> periodic_task \<times> event list \<Rightarrow> (periodic_task \<times> event list) option" where
  "join env s =
     (if thread (fst s) = Some Exited then Some s else join env (run_step env s))"

definition stop :: "bus_env \<Rightarrow> periodic_task \<times> event list \<Rightarrow> (periodic_task \<times> event list) option" where
  "stop env s =
     (let t = (fst s)\<lparr>running := False, stop_event := True\<rparr> in
      if thread t \<noteq> None then join env (t, snd s) else Some (t, snd s))"

fun stop_times :: "bus_env \<Rightarrow> nat \<Rightarrow> periodic_task \<times> event list \<Rightarrow> (periodic_task \<times> event list) option" where
  "stop_times env 0 s = Some s"
| "stop_times env (Suc n) s =
     (case stop env s of None \<Rightarrow> None | Some s' \<Rightarrow> stop_times env n s')"

text \<open>
  The state \<^verbatim>\<open>stop\<close> leaves a task in, and the trace it leaves behind: a thread caught
  inside \<^verbatim>\<open>time.sleep(1)\<close> finishes the sleep, one caught before the block under the
  lock still makes its send, and then each sees the flags and finishes.
\<close>

definition stopped :: "periodic_task \<Rightarrow> periodic_task" where
  "stopped t =
     t\<lparr>running := False, stop_event := True,
       thread := (case thread t of None \<Rightarrow> None | Some p \<Rightarrow> Some Exited)\<rparr>"

definition stop_trace :: "bus_env \<Rightarrow> periodic_task \<Rightarrow> event list \<Rightarrow> event list" where
  "stop_trace env t tr =
     (case thread t of
        Some Sleeping \<Rightarrow> tr @ [Slept 1]
      | Some Sending \<Rightarrow> snd (run_step env (t, tr))
      | _ \<Rightarrow> tr)"

section \<open>The application (class MultiCanTransmitterApp)\<close>

text \<open>
  The log holds one entry per call of \<^verbatim>\<open>log\<close>: the time of the call and the message.
  A message is named by a constructor that carries the values its f-string prints.
\<close>

type_synonym timestamp = string

datatype log_msg =
    AddedMessage int real        \<comment> \<open>\<^verbatim>\<open>Added message with ID: {can_id} Cycle Time: {cycle_time * 1000}ms\<close>\<close>
  | UpdatedExistingTask int      \<comment> \<open>\<^verbatim>\<open>Updated existing task for CAN-ID: {can_id}\<close>\<close>
  | StartedNewTask int           \<comment> \<open>\<^verbatim>\<open>Started new task for CAN-ID: {can_id}\<close>\<close>
  | ErrorAddingMessage           \<comment> \<open>\<^verbatim>\<open>Error adding message: {e}\<close>\<close>
  | StoppedAndRemovedTask int    \<comment> \<open>\<^verbatim>\<open>Stopped and removed task for CAN-ID: ...\<close>\<close>
  | NoTaskFound int              \<comment> \<open>\<^verbatim>\<open>No task found for CAN-ID: ...\<close>\<close>
  | RemovedMessage int           \<comment> \<open>\<^verbatim>\<open>Removed message with CAN-ID: ...\<close>\<close>
  | ErrorRemovingMessage         \<comment> \<open>\<^verbatim>\<open>Error removing message: {e}\<close>\<close>
  | BusNotInitializedAttempting  \<comment> \<open>\<^verbatim>\<open>CAN bus is not initialized! Attempting to initialize...\<close>\<close>
  | FailedToInitialize           \<comment> \<open>\<^verbatim>\<open>Failed to initialize CAN bus. Cyclic transmission aborted.\<close>\<close>
  | StartedCyclic int int        \<comment> \<open>\<^verbatim>\<open>Started cyclic transmission for CAN-ID={can_id} every {cycle_time_int}ms.\<close>\<close>
  | CyclicStopped                \<comment> \<open>\<^verbatim>\<open>Cyclic transmission stopped.\<close>\<close>
  | BusInitialized string int    \<comment> \<open>\<^verbatim>\<open>CAN bus initialized on {channel} with bitrate {bitrate}.\<close>\<close>
  | ErrorValue string            \<comment> \<open>\<^verbatim>\<open>Error: {ve}\<close>\<close>
  | ErrorInitializing string     \<comment> \<open>\<^verbatim>\<open>Error initializing CAN bus: {e}\<close>\<close>
  | UnexpectedError string       \<comment> \<open>\<^verbatim>\<open>Unexpected error: {e}\<close>\<close>
  | CanBusReset                  \<comment> \<open>\<^verbatim>\<open>CAN bus reset.\<close>\<close>
  | MessageTableCleared          \<comment> \<open>\<^verbatim>\<open>Message table cleared.\<close>\<close>
  | ApplicationReset             \<comment> \<open>\<^verbatim>\<open>Application reset.\<close>\<close>
  | ExitingApplication           \<comment> \<open>\<^verbatim>\<open>Exiting application...\<close>\<close>

text \<open>
  A row of the message table holds four texts, written by \<^verbatim>\<open>add_message\<close> with
  \<^verbatim>\<open>hex\<close> and \<^verbatim>\<open>str\<close> and read back by \<^verbatim>\<open>start_cyclic\<close> and \<^verbatim>\<open>remove_message\<close>
  with \<^verbatim>\<open>int(_, 16)\<close> and \<^verbatim>\<open>float\<close>. The model stores the values those texts stand
  for; on such texts the conversions return these values and do not raise, so the
  \<^verbatim>\<open>except\<close> branch inside the loop of \<^verbatim>\<open>start_cyclic\<close> has no counterpart.
\<close>

record row =
  col_can_id :: int
  col_data :: "int list"
  col_cycle_time :: real
  col_id_type :: string

text \<open>
  What the entry widgets hold when \<^verbatim>\<open>add_message\<close> reads them: for each converted
  field the value the conversion returns, \<open>None\<close> where it raises.
\<close>

record form =
  can_id_entry :: "int option"
  data_entry :: "int list option"
  cycle_time_entry :: "real option"
  id_type_combobox :: string

text \<open>
  PeriodicTask objects live in \<open>objs\<close>, at the address of their creation, and are never
  freed while their thread may run; \<^verbatim>\<open>self.periodic_tasks\<close> is a list of addresses.
  \<open>n_buses\<close> counts the bus objects created so far, \<open>shut_down\<close> lists the buses whose
  \<^verbatim>\<open>shutdown\<close> was called, \<open>trace\<close> is the trace of the world, and a button is
  \<open>True\<close> when enabled.
\<close>

record app =
  app_bus :: "bus_ref option"
  objs :: "periodic_task list"
  periodic_tasks :: "nat list"
  message_table :: "(nat \<times> row) list"
  next_item :: nat
  log_text :: "(timestamp \<times> log_msg) list"
  now :: timestamp
  trace :: "event list"
  start_button :: bool
  stop_button :: bool
  channel_combobox :: string
  hard_combobox :: string
  bitrate_combobox :: "int option"
  n_buses :: nat
  shut_down :: "bus_ref list"
  has_quit :: bool

text \<open>What \<^verbatim>\<open>can.interface.Bus(channel=, interface=, bitrate=)\<close> does.\<close>

datatype open_outcome =
  Opened | OpenValueError string | OpenCanError string | OpenException string

type_synonym driver = "string \<Rightarrow> string \<Rightarrow> int \<Rightarrow> open_outcome"

definition append_log ::
  "(timestamp \<times> log_msg) list \<Rightarrow> timestamp \<times> log_msg \<Rightarrow> (timestamp \<times> log_msg) list" where
  "append_log l e = (let l' = l @ [e] in if length l' > 1000 then tl l' else l')"

definition log_app :: "app \<Rightarrow> log_msg \<Rightarrow> app" where
  "log_app a m = a\<lparr>log_text := append_log (log_text a) (now a, m)\<rparr>"

definition messagebox :: "app \<Rightarrow> dialog \<Rightarrow> app" where
  "messagebox a d = a\<lparr>trace := trace a @ [MessageBox d]\<rparr>"

definition print_app :: "app \<Rightarrow> print_line \<Rightarrow> app" where
  "print_app a l = a\<lparr>trace := trace a @ [Printed l]\<rparr>"

text \<open>
  \<^verbatim>\<open>self.manual_channel_entry\<close> is never created, so reading it raises
  \<^verbatim>\<open>AttributeError\<close>, which the last \<^verbatim>\<open>except\<close> catches.
\<close>

definition setup_can_bus :: "driver \<Rightarrow> app \<Rightarrow> bool \<times> app" where
  "setup_can_bus drv a =
     (if app_bus a \<noteq> None then (True, a)
      else if channel_combobox a = ''Manual Input (Set Channel)'' then
        (False, messagebox (log_app a (UnexpectedError ''AttributeError''))
                  (ShowError ''AttributeError''))
      else if channel_combobox a = [] then
        (False, messagebox
                  (log_app a (ErrorValue ''Please select or enter a valid CAN channel.''))
                  (ShowWarning ''Please select or enter a valid CAN channel.''))
      else
        (case bitrate_combobox a of
           None \<Rightarrow>
             (False, messagebox (log_app a (ErrorValue ''invalid literal for int()''))
                       (ShowWarning ''invalid literal for int()''))
         | Some bitrate \<Rightarrow>
             (case drv (channel_combobox a) (hard_combobox a) bitrate of
                Opened \<Rightarrow>
                  (True,
                   log_app
                     (print_app
                        (a\<lparr>app_bus := Some (n_buses a), n_buses := Suc (n_buses a)\<rparr>)
                        (BusInitializedLine (channel_combobox a) bitrate))
                     (BusInitialized (channel_combobox a) bitrate))
              | OpenValueError e \<Rightarrow>
                  (False, messagebox (log_app a (ErrorValue e)) (ShowWarning e))
              | OpenCanError e \<Rightarrow>
                  (False, messagebox (log_app a (ErrorInitializing e)) (ShowError e))
              | OpenException e \<Rightarrow>
                  (False, messagebox (log_app a (UnexpectedError e)) (ShowError e)))))"

definition find_task :: "app \<Rightarrow> int \<Rightarrow> nat option" where
  "find_task a c = find (\<lambda>i. can_id (objs a ! i) = c) (periodic_tasks a)"

definition add_message :: "form \<Rightarrow> app \<Rightarrow> app" where
  "add_message f a =
     (case (can_id_entry f, data_entry f, cycle_time_entry f) of
        (Some c, Some d, Some ms) \<Rightarrow>
          (let cycle = ms / 1000;
               ext = (id_type_combobox f = ''Extended'');
               a1 = log_app a (AddedMessage c (cycle * 1000));
               a2 = (case find_task a1 c of
                       Some i \<Rightarrow>
                         log_app
                           (a1\<lparr>objs := (objs a1)
                                  [i := (objs a1 ! i)\<lparr>data := d, cycle_time := cycle,
                                                       is_extended := ext\<rparr>]\<rparr>)
                           (UpdatedExistingTask c)
                     | None \<Rightarrow>
                         log_app
                           (a1\<lparr>objs := objs a1 @
                                  [start (PeriodicTask_init (app_bus a1) c d ext cycle)],
                               periodic_tasks := periodic_tasks a1 @ [length (objs a1)]\<rparr>)
                           (StartedNewTask c))
           in a2\<lparr>message_table := message_table a2 @
                    [(next_item a2,
                      \<lparr>col_can_id = c, col_data = d, col_cycle_time = cycle * 1000,
                       col_id_type = id_type_combobox f\<rparr>)],
                  next_item := Suc (next_item a2)\<rparr>)
      | _ \<Rightarrow> messagebox (log_app a ErrorAddingMessage) (ShowError ''Failed to add message''))"

text \<open>\<^verbatim>\<open>int(x)\<close> of a float truncates towards zero.\<close>

definition py_int :: "real \<Rightarrow> int" where
  "py_int x = (if 0 \<le> x then \<lfloor>x\<rfloor> else \<lceil>x\<rceil>)"

text \<open>The body of the loop of \<^verbatim>\<open>start_cyclic\<close>, for one row.\<close>

definition row_task :: "bus_ref option \<Rightarrow> row \<Rightarrow> periodic_task" where
  "row_task b r =
     start (PeriodicTask_init b (col_can_id r) (col_data r) (col_id_type r = ''Extended'')
              (col_cycle_time r / 1000))"

definition start_row :: "app \<Rightarrow> row \<Rightarrow> app" where
  "start_row a r =
     log_app
       (a\<lparr>objs := objs a @ [row_task (app_bus a) r],
          periodic_tasks := periodic_tasks a @ [length (objs a)]\<rparr>)
       (StartedCyclic (col_can_id r) (py_int (col_cycle_time r)))"

definition start_cyclic :: "driver \<Rightarrow> app \<Rightarrow> app" where
  "start_cyclic drv a =
     (let r = (if app_bus a = None
               then setup_can_bus drv (log_app a BusNotInitializedAttempting)
               else (True, a))
      in if \<not> fst r then log_app (snd r) FailedToInitialize
         else (foldl start_row ((snd r)\<lparr>periodic_tasks := []\<rparr>)
                 (map snd (message_table (snd r))))
              \<lparr>start_button := False, stop_button := True\<rparr>)"

text \<open>\<^verbatim>\<open>for task in self.periodic_tasks: task.stop()\<close>, on the objects and the trace.\<close>

fun stop_all ::
  "bus_env \<Rightarrow> nat list \<Rightarrow> periodic_task list \<times> event list \<Rightarrow>
   (periodic_task list \<times> event list) option" where
  "stop_all env [] s = Some s"
| "stop_all env (i # js) s =
     (case stop env (fst s ! i, snd s) of
        None \<Rightarrow> None
      | Some r \<Rightarrow> stop_all env js ((fst s)[i := fst r], snd r))"

definition stop_cyclic :: "bus_env \<Rightarrow> app \<Rightarrow> app option" where
  "stop_cyclic env a =
     (case stop_all env (periodic_tasks a) (objs a, trace a) of
        None \<Rightarrow> None
      | Some r \<Rightarrow>
          Some ((log_app (a\<lparr>objs := fst r, trace := snd r, periodic_tasks := []\<rparr>)
                   CyclicStopped)
                \<lparr>start_button := True, stop_button := False\<rparr>))"

definition reset :: "bus_env \<Rightarrow> app \<Rightarrow> app option" where
  "reset env a =
     (case stop_all env (periodic_tasks a) (objs a, trace a) of
        None \<Rightarrow> None
      | Some r \<Rightarrow>
          (let a1 = a\<lparr>objs := fst r, trace := snd r, periodic_tasks := []\<rparr>;
               a2 = (case app_bus a1 of
                       None \<Rightarrow> a1
                     | Some b \<Rightarrow>
                         log_app (a1\<lparr>shut_down := shut_down a1 @ [b], app_bus := None\<rparr>)
                           CanBusReset);
               a3 = log_app (a2\<lparr>message_table := []\<rparr>) MessageTableCleared
           in Some (log_app (a3\<lparr>start_button := True, stop_button := False\<rparr>)
                      ApplicationReset)))"

definition on_closing :: "bus_env \<Rightarrow> app \<Rightarrow> app option" where
  "on_closing env a =
     (let a1 = log_app a ExitingApplication in
      case stop_all env (periodic_tasks a1) (objs a1, trace a1) of
        None \<Rightarrow> None
      | Some r \<Rightarrow> Some (a1\<lparr>objs := fst r, trace := snd r, has_quit := True\<rparr>))"

text \<open>
  The body of the loop of \<^verbatim>\<open>remove_message\<close>, for one selected item. An item that is
  not in the table makes \<^verbatim>\<open>message_table.item\<close> raise, which the \<^verbatim>\<open>except\<close> logs.
\<close>

definition remove_item :: "bus_env \<Rightarrow> nat \<Rightarrow> app \<Rightarrow> app option" where
  "remove_item env item a =
     (case map_of (message_table a) item of
        None \<Rightarrow> Some (log_app a ErrorRemovingMessage)
      | Some r \<Rightarrow>
          (let c = col_can_id r;
               found = (case find_task a c of
                  None \<Rightarrow> Some (log_app a (NoTaskFound c))
                | Some i \<Rightarrow>
                    (case stop env (objs a ! i, trace a) of
                       None \<Rightarrow> None
                     | Some s \<Rightarrow>
                         Some (log_app
                                 (a\<lparr>objs := (objs a)[i := fst s], trace := snd s,
                                    periodic_tasks := remove1 i (periodic_tasks a)\<rparr>)
                                 (StoppedAndRemovedTask c))))
           in case found of
                None \<Rightarrow> None
              | Some a1 \<Rightarrow>
                  Some (log_app
                          (a1\<lparr>message_table :=
                                 filter (\<lambda>p. fst p \<noteq> item) (message_table a1)\<rparr>)
                          (RemovedMessage c))))"

fun remove_items :: "bus_env \<Rightarrow> nat list \<Rightarrow> app \<Rightarrow> app option" where
  "remove_items env [] a = Some a"
| "remove_items env (item # items) a =
     (case remove_item env item a of
        None \<Rightarrow> None
      | Some a' \<Rightarrow> remove_items env items a')"

definition remove_message :: "bus_env \<Rightarrow> nat list \<Rightarrow> app \<Rightarrow> app option" where
  "remove_message env selected_items a =
     (if selected_items = []
      then Some (messagebox a (ShowWarning ''No message selected for removal.''))
      else (case remove_items env selected_items a of
              None \<Rightarrow> None
            | Some a' \<Rightarrow>
                Some (if periodic_tasks a' = [] then a'\<lparr>stop_button := False\<rparr> else a')))"

text \<open>The thread of the object at address \<open>i\<close> takes one step.\<close>

definition thread_step :: "bus_env \<Rightarrow> nat \<Rightarrow> app \<Rightarrow> app" where
  "thread_step env i a =
     (if i < length (objs a)
      then (let s = run_step env (objs a ! i, trace a)
            in a\<lparr>objs := (objs a)[i := fst s], trace := snd s\<rparr>)
      else a)"

text \<open>
  What can happen to the application: the user presses a button (the handlers above),
  changes a selection, time passes, or one of the threads takes a step.
\<close>

datatype action =
    AddMessage form
  | RemoveMessage "nat list"
  | StartCyclic
  | StopCyclic
  | Reset
  | OnClosing
  | SetupCanBus
  | Select string string "int option"
  | Clock timestamp
  | ThreadStep nat

fun do_action :: "bus_env \<Rightarrow> driver \<Rightarrow> action \<Rightarrow> app \<Rightarrow> app option" where
  "do_action env drv (AddMessage f) a = Some (add_message f a)"
| "do_action env drv (RemoveMessage sel) a = remove_message env sel a"
| "do_action env drv StartCyclic a = Some (start_cyclic drv a)"
| "do_action env drv StopCyclic a = stop_cyclic env a"
| "do_action env drv Reset a = reset env a"
| "do_action env drv OnClosing a = on_closing env a"
| "do_action env drv SetupCanBus a = Some (snd (setup_can_bus drv a))"
| "do_action env drv (Select ch hw br) a =
     Some (a\<lparr>channel_combobox := ch, hard_combobox := hw, bitrate_combobox := br\<rparr>)"
| "do_action env drv (Clock ts) a = Some (a\<lparr>now := ts\<rparr>)"
| "do_action env drv (ThreadStep i) a = Some (thread_step env i a)"

fun exec :: "bus_env \<Rightarrow> driver \<Rightarrow> action list \<Rightarrow> app \<Rightarrow> app option" where
  "exec env drv [] a = Some a"
| "exec env drv (x # xs) a =
     (case do_action env drv x a of None \<Rightarrow> None | Some a' \<Rightarrow> exec env drv xs a')"


text \<open>The application as \<^verbatim>\<open>__init__\<close> leaves it, for a given selection of the comboboxes.\<close>

definition init_app :: "string \<Rightarrow> string \<Rightarrow> int option \<Rightarrow> app" where
  "init_app ch hw br =
     \<lparr>app_bus = None, objs = [], periodic_tasks = [], message_table = [], next_item = 0,
      log_text = [], now = [], trace = [], start_button = True, stop_button = False,
      channel_combobox = ch, hard_combobox = hw, bitrate_combobox = br,
      n_buses = 0, shut_down = [], has_quit = False\<rparr>"


text \<open>How many tasks of the list carry the identifier \<open>c\<close>.\<close>

definition count_id :: "app \<Rightarrow> int \<Rightarrow> nat" where
  "count_id a c = length (filter (\<lambda>i. can_id (objs a ! i) = c) (periodic_tasks a))"

text \<open>The objects after \<^verbatim>\<open>stop\<close> has been called on each listed address in turn.\<close>

definition stopped_all :: "nat list \<Rightarrow> periodic_task list \<Rightarrow> periodic_task list" where
  "stopped_all js os = fold (\<lambda>i os. os[i := stopped (os ! i)]) js os"

text \<open>
  The objects \<open>os'\<close> hold every object of \<open>os\<close> at its address, with the bus
  reference it had.
\<close>

definition bus_kept :: "periodic_task list \<Rightarrow> periodic_task list \<Rightarrow> bool" where
  "bus_kept os os' =
     (length os \<le> length os' \<and> (\<forall>i < length os. bus (os' ! i) = bus (os ! i)))"


section \<open>Scenarios\<close>

text \<open>
  A task for identifier 0x100 with payload 01 02 and a cycle of 100 ms on bus 0, whose
  thread stands before the block under the lock.
\<close>

definition demo_task :: periodic_task where
  "demo_task =
     (PeriodicTask_init (Some 0) 256 [1, 2] False (1 / 10))\<lparr>thread := Some Sending\<rparr>"


definition no_bus_task :: periodic_task where
  "no_bus_task = start (PeriodicTask_init None 256 [1, 2] False (1 / 10))"




text \<open>
  The application right after its start on channel can0 with a driver that opens it;
  then with the bus open and one message added (identifier 0x200, payload 01 02, cycle
  100 ms); then with the same identifier added once more, with another payload, cycle
  time and id type.
\<close>

definition can0_app :: app where
  "can0_app = init_app ''can0'' ''socketcan'' (Some 250000)"

definition open_driver :: driver where
  "open_driver ch hw br = Opened"

definition form_200 :: form where
  "form_200 = \<lparr>can_id_entry = Some 512, data_entry = Some [1, 2],
               cycle_time_entry = Some 100, id_type_combobox = ''Standard''\<rparr>"

definition form_200_new :: form where
  "form_200_new = \<lparr>can_id_entry = Some 512, data_entry = Some [170, 187, 204],
               cycle_time_entry = Some 50, id_type_combobox = ''Extended''\<rparr>"

definition running_app :: app where
  "running_app = add_message form_200 (snd (setup_can_bus open_driver can0_app))"

definition two_rows_app :: app where
  "two_rows_app = add_message form_200_new running_app"


text \<open>The application with the same message added while no bus is open.\<close>

definition unopened_app :: app where
  "unopened_app = add_message form_200 can0_app"

section \<open>Properties of the transmitter\<close>

lemma join_exited: "thread t = Some Exited \<Longrightarrow> join env (t, tr) = Some (t, tr)"
  by (subst join.simps) simp

lemma join_flagged:
  assumes "\<not> running t" "stop_event t" "thread t = Some p"
  shows "join env (t, tr) = Some (t\<lparr>thread := Some Exited\<rparr>, stop_trace env t tr)"
proof (cases p)
  case LoopTest
  with assms show ?thesis
    by (subst join.simps) (simp add: run_step_def stop_trace_def join_exited)
next
  case Sleeping
  with assms show ?thesis
    by (subst join.simps) (simp add: run_step_def stop_trace_def join_exited)
next
  case Sending
  with assms show ?thesis
    apply (subst join.simps)
    apply (subst join.simps)
    apply (simp add: run_step_def stop_trace_def join_exited split: option.splits)
    done
next
  case (Waiting x)
  with assms show ?thesis
    by (subst join.simps) (simp add: run_step_def stop_trace_def join_exited)
next
  case Exited
  with assms show ?thesis
    by (simp add: join_exited stop_trace_def)
qed

text \<open>\<^verbatim>\<open>stop\<close> always returns, and this is what it returns.\<close>

lemma stop_eq: "stop env (t, tr) = Some (stopped t, stop_trace env t tr)"
proof (cases "thread t")
  case None
  then show ?thesis by (simp add: stop_def stopped_def stop_trace_def)
next
  case (Some p)
  then show ?thesis
    using join_flagged[of "t\<lparr>running := False, stop_event := True\<rparr>" p env tr]
    by (simp add: stop_def stopped_def stop_trace_def Let_def run_step_def make_message_def
        split: pc.splits option.splits)
qed

lemma stopped_fields:
  "\<not> running (stopped t)" "stop_event (stopped t)" "\<not> is_alive (thread (stopped t))"
  "bus (stopped t) = bus t" "can_id (stopped t) = can_id t"
  by (simp_all add: stopped_def split: option.splits)

lemma stopped_idem: "stopped (stopped t) = stopped t"
  by (simp add: stopped_def split: option.splits)

lemma stop_trace_stopped: "stop_trace env (stopped t) tr = tr"
  by (simp add: stopped_def stop_trace_def split: option.splits)

lemma run_step_not_alive: "\<not> is_alive (thread t) \<Longrightarrow> run_step env (t, tr) = (t, tr)"
  by (cases "thread t"; cases "the (thread t)") (auto simp: run_step_def)

lemma run_steps_not_alive: "\<not> is_alive (thread t) \<Longrightarrow> run_steps env k (t, tr) = (t, tr)"
  by (induction k) (simp_all add: run_step_not_alive)

lemma stop_times_stopped: "stop_times env n (stopped t, tr) = Some (stopped t, tr)"
  by (induction n) (simp_all add: stop_eq stopped_idem stop_trace_stopped)

text \<open>
  Claim C4. For every transmitter, in whatever state its thread is, \<^verbatim>\<open>stop\<close> returns;
  when it has returned the cancellation signal is set (\<^verbatim>\<open>running\<close> is false and the
  event is set) and the thread is not alive (join semantics), so whatever the thread is
  asked to do afterwards changes neither the task nor the trace: no further send.
\<close>

theorem stop_no_further_send:
  "\<exists>t' tr'. stop env (t, tr) = Some (t', tr') \<and> \<not> running t' \<and> stop_event t' \<and>
      \<not> is_alive (thread t') \<and> (\<forall>env' k. run_steps env' k (t', tr') = (t', tr'))"
  using stop_eq[of env t tr] stopped_fields[of t]
  by (simp add: run_steps_not_alive)

text \<open>
  Claim C8. \<^verbatim>\<open>stop\<close> is idempotent: for every transmitter and every \<open>N > 1\<close>, calling
  \<^verbatim>\<open>stop\<close> \<open>N\<close> times returns (it neither raises nor blocks) and leaves the task and
  the trace as one call leaves them.
\<close>

theorem stop_idempotent:
  "1 < N \<Longrightarrow> \<exists>s'. stop env (t, tr) = Some s' \<and> stop_times env N (t, tr) = Some s'"
proof -
  assume "1 < N"
  then obtain n where N: "N = Suc n" by (cases N) auto
  show ?thesis
    by (simp add: N stop_eq stop_times_stopped)
qed

theorem stop_idempotent_witness:
  "(1::nat) < 3 \<and> (\<exists>s'. stop (\<lambda>n. SendOk) (demo_task, []) = Some s' \<and>
      stop_times (\<lambda>n. SendOk) 3 (demo_task, []) = Some s')"
  using stop_idempotent[of 3 "\<lambda>n. SendOk" demo_task "[]"] by simp

subsection \<open>Send failures\<close>


lemma n_sends_append [simp]: "n_sends (xs @ ys) = n_sends xs + n_sends ys"
  by (simp add: n_sends_def)

lemma send_prints_no_send [simp]: "filter is_send (send_prints out) = []"
  by (cases out) simp_all









subsection \<open>What a send attempt emits\<close>





subsection \<open>A transmitter without a bus\<close>

lemma no_bus_step_sends:
  "bus t = None \<Longrightarrow>
   n_sends (snd (run_step env (t, tr))) = n_sends tr \<and> bus (fst (run_step env (t, tr))) = None"
  by (auto simp: run_step_def n_sends_def split: option.splits pc.splits)

lemma no_bus_steps_sends:
  "bus t = None \<Longrightarrow> n_sends (snd (run_steps env k (t, tr))) = n_sends tr"
proof (induction k arbitrary: t tr)
  case 0
  then show ?case by simp
next
  case (Suc k)
  have "n_sends (snd (run_steps env k (run_step env (t, tr)))) =
        n_sends (snd (run_step env (t, tr)))"
    using Suc.IH[of "fst (run_step env (t, tr))" "snd (run_step env (t, tr))"]
      no_bus_step_sends[OF Suc.prems, of env tr] by simp
  then show ?case using no_bus_step_sends[OF Suc.prems, of env tr] by simp
qed

lemma objs_setup_can_bus: "objs (snd (setup_can_bus drv a)) = objs a"
  by (simp add: setup_can_bus_def log_app_def messagebox_def print_app_def
      split: option.splits open_outcome.splits)

section \<open>Properties of the application\<close>

text \<open>The scenarios, evaluated.\<close>

lemmas scenario_defs = can0_app_def open_driver_def form_200_def form_200_new_def
  running_app_def two_rows_app_def init_app_def setup_can_bus_def add_message_def
  log_app_def append_log_def print_app_def messagebox_def find_task_def start_def
  PeriodicTask_init_def




subsection \<open>Stopping all transmitters, and a failed start\<close>

lemma stop_all_eq: "\<exists>tr'. stop_all env js (os, tr) = Some (stopped_all js os, tr')"
  by (induction js arbitrary: os tr) (simp_all add: stopped_all_def stop_eq)

lemma length_stopped_all [simp]: "length (stopped_all js os) = length os"
  by (induction js arbitrary: os) (simp_all add: stopped_all_def)

lemma stopped_all_nth:
  "i < length os \<Longrightarrow>
   stopped_all js os ! i = (if i \<in> set js then stopped (os ! i) else os ! i)"
proof (induction js arbitrary: os)
  case Nil
  then show ?case by (simp add: stopped_all_def)
next
  case (Cons j js)
  have "stopped_all (j # js) os = stopped_all js (os[j := stopped (os ! j)])"
    by (simp add: stopped_all_def)
  moreover have "os[j := stopped (os ! j)] ! i = (if i = j then stopped (os ! j) else os ! i)"
    using Cons.prems by (simp add: nth_list_update)
  ultimately show ?case
    using Cons.IH[of "os[j := stopped (os ! j)]"] Cons.prems
    by (cases "i = j") (simp_all add: stopped_idem)
qed

lemma stopped_all_Nil [simp]: "stopped_all [] os = os"
  by (simp add: stopped_all_def)

lemma stopped_all_bus:
  "i < length os \<Longrightarrow> bus (stopped_all js os ! i) = bus (os ! i)"
  by (simp add: stopped_all_nth stopped_fields)








subsection \<open>Starting the cyclic transmission\<close>

lemma setup_can_bus_frame:
  "objs (snd (setup_can_bus drv a)) = objs a"
  "periodic_tasks (snd (setup_can_bus drv a)) = periodic_tasks a"
  "message_table (snd (setup_can_bus drv a)) = message_table a"
  by (simp_all add: setup_can_bus_def log_app_def messagebox_def print_app_def
      split: option.splits open_outcome.splits)

lemma foldl_start_row_objs:
  "objs (foldl start_row a rs) = objs a @ map (row_task (app_bus a)) rs"
  by (induction rs arbitrary: a) (simp_all add: start_row_def log_app_def)









subsection \<open>The bus reference of a transmitter\<close>

lemma bus_kept_refl [simp]: "bus_kept os os"
  by (simp add: bus_kept_def)

lemma bus_kept_trans: "bus_kept os os' \<Longrightarrow> bus_kept os' os'' \<Longrightarrow> bus_kept os os''"
  by (auto simp: bus_kept_def)

lemma bus_kept_append [simp]: "bus_kept os (os @ xs)"
  by (simp add: bus_kept_def nth_append)

lemma bus_kept_update: "bus t = bus (os ! i) \<Longrightarrow> bus_kept os (os[i := t])"
proof -
  assume b: "bus t = bus (os ! i)"
  have "bus (os[i := t] ! j) = bus (os ! j)" if "j < length os" for j
    using that b by (cases "j = i") simp_all
  then show ?thesis by (simp add: bus_kept_def)
qed

lemma bus_kept_stopped_all [simp]: "bus_kept os (stopped_all js os)"
  by (simp add: bus_kept_def stopped_all_bus)

lemma bus_run_step: "bus (fst (run_step env (t, tr))) = bus t"
  by (auto simp: run_step_def split: option.splits pc.splits)

lemma bus_kept_add_message: "bus_kept (objs a) (objs (add_message f a))"
  by (auto simp: add_message_def log_app_def messagebox_def Let_def bus_kept_update
      split: option.splits)

lemma bus_kept_start_cyclic: "bus_kept (objs a) (objs (start_cyclic drv a))"
  by (simp add: start_cyclic_def Let_def log_app_def foldl_start_row_objs setup_can_bus_frame)

lemma bus_kept_thread_step: "bus_kept (objs a) (objs (thread_step env i a))"
  by (simp add: thread_step_def Let_def bus_kept_update bus_run_step)

lemma stop_cyclic_kept: "\<exists>a'. stop_cyclic env a = Some a' \<and> bus_kept (objs a) (objs a')"
proof -
  obtain tr' where "stop_all env (periodic_tasks a) (objs a, trace a) =
      Some (stopped_all (periodic_tasks a) (objs a), tr')"
    using stop_all_eq by blast
  then show ?thesis by (simp add: stop_cyclic_def log_app_def)
qed

lemma reset_kept: "\<exists>a'. reset env a = Some a' \<and> bus_kept (objs a) (objs a')"
proof -
  obtain tr' where "stop_all env (periodic_tasks a) (objs a, trace a) =
      Some (stopped_all (periodic_tasks a) (objs a), tr')"
    using stop_all_eq by blast
  then show ?thesis by (simp add: reset_def log_app_def Let_def split: option.splits)
qed

lemma on_closing_kept: "\<exists>a'. on_closing env a = Some a' \<and> bus_kept (objs a) (objs a')"
proof -
  let ?a1 = "log_app a ExitingApplication"
  obtain tr' where "stop_all env (periodic_tasks ?a1) (objs ?a1, trace ?a1) =
      Some (stopped_all (periodic_tasks ?a1) (objs ?a1), tr')"
    using stop_all_eq by blast
  moreover have "objs ?a1 = objs a" by (simp add: log_app_def)
  ultimately show ?thesis by (simp add: on_closing_def Let_def)
qed

lemma remove_item_kept: "\<exists>a'. remove_item env item a = Some a' \<and> bus_kept (objs a) (objs a')"
  by (auto simp: remove_item_def Let_def stop_eq log_app_def bus_kept_update stopped_fields
      split: option.splits)

lemma remove_items_kept: "\<exists>a'. remove_items env items a = Some a' \<and> bus_kept (objs a) (objs a')"
proof (induction items arbitrary: a)
  case Nil
  show ?case by simp
next
  case (Cons item items)
  obtain a1 where 1: "remove_item env item a = Some a1" "bus_kept (objs a) (objs a1)"
    using remove_item_kept by blast
  obtain a2 where 2: "remove_items env items a1 = Some a2" "bus_kept (objs a1) (objs a2)"
    using Cons.IH by blast
  show ?case using 1 2 by (auto intro: bus_kept_trans)
qed

lemma remove_message_kept: "\<exists>a'. remove_message env sel a = Some a' \<and> bus_kept (objs a) (objs a')"
proof -
  obtain a2 where "remove_items env sel a = Some a2" "bus_kept (objs a) (objs a2)"
    using remove_items_kept by blast
  then show ?thesis by (simp add: remove_message_def messagebox_def)
qed

lemma do_action_kept: "\<exists>a'. do_action env drv x a = Some a' \<and> bus_kept (objs a) (objs a')"
proof (cases x)
  case (AddMessage f)
  then show ?thesis by (simp add: bus_kept_add_message)
next
  case (RemoveMessage sel)
  then show ?thesis by (simp add: remove_message_kept)
next
  case StartCyclic
  then show ?thesis by (simp add: bus_kept_start_cyclic)
next
  case StopCyclic
  then show ?thesis by (simp add: stop_cyclic_kept)
next
  case Reset
  then show ?thesis by (simp add: reset_kept)
next
  case OnClosing
  then show ?thesis by (simp add: on_closing_kept)
next
  case SetupCanBus
  then show ?thesis by (simp add: setup_can_bus_frame)
next
  case (Select ch hw br)
  then show ?thesis by simp
next
  case (Clock ts)
  then show ?thesis by simp
next
  case (ThreadStep i)
  then show ?thesis by (simp add: bus_kept_thread_step)
qed

lemma exec_kept: "\<exists>a'. exec env drv acts a = Some a' \<and> bus_kept (objs a) (objs a')"
proof (induction acts arbitrary: a)
  case Nil
  show ?case by simp
next
  case (Cons x acts)
  obtain a1 where 1: "do_action env drv x a = Some a1" "bus_kept (objs a) (objs a1)"
    using do_action_kept by blast
  obtain a2 where 2: "exec env drv acts a1 = Some a2" "bus_kept (objs a1) (objs a2)"
    using Cons.IH by blast
  show ?case using 1 2 by (auto intro: bus_kept_trans)
qed

lemma add_message_update_path:
  assumes "can_id_entry f = Some c" "data_entry f = Some d" "cycle_time_entry f = Some ms"
    "find_task a c = Some j"
  shows "objs (add_message f a) =
           (objs a)[j := (objs a ! j)\<lparr>data := d, cycle_time := ms / 1000,
                                     is_extended := (id_type_combobox f = ''Extended'')\<rparr>]"
  using assms by (simp add: add_message_def Let_def log_app_def find_task_def)

text \<open>
  Claim C10. The bus reference of a transmitter is the one it was created with: after
  any sequence of operations of the application and steps of the threads (every one of
  which returns), every transmitter object that existed before is still there with the
  same bus reference, and the update path of \<^verbatim>\<open>add_message\<close> rewrites the payload,
  the cycle time and the extended flag of the object and nothing else. So a
  transmitter created while no bus was open holds \<^verbatim>\<open>None\<close> for ever, and whatever
  its thread does from any state reached, also after a later successful open, adds
  no call of \<^verbatim>\<open>send\<close>.
\<close>

theorem bus_reference_fixed:
  assumes "i < length (objs a)"
  shows "(\<exists>a'. exec env drv acts a = Some a' \<and> i < length (objs a') \<and>
            bus (objs a' ! i) = bus (objs a ! i) \<and>
            (bus (objs a ! i) = None \<longrightarrow>
               (\<forall>env' k tr. n_sends (snd (run_steps env' k (objs a' ! i, tr))) = n_sends tr))) \<and>
         (\<forall>f c d ms j. can_id_entry f = Some c \<longrightarrow> data_entry f = Some d \<longrightarrow>
            cycle_time_entry f = Some ms \<longrightarrow> find_task a c = Some j \<longrightarrow>
            objs (add_message f a) =
              (objs a)[j := (objs a ! j)\<lparr>data := d, cycle_time := ms / 1000,
                                        is_extended := (id_type_combobox f = ''Extended'')\<rparr>])"
proof -
  obtain a' where e: "exec env drv acts a = Some a'" and k: "bus_kept (objs a) (objs a')"
    using exec_kept by blast
  have "i < length (objs a')" "bus (objs a' ! i) = bus (objs a ! i)"
    using k assms by (auto simp: bus_kept_def)
  then show ?thesis
    using e by (simp add: no_bus_steps_sends add_message_update_path)
qed

lemma unopened_app_facts:
  "length (objs unopened_app) = 1" "bus (objs unopened_app ! 0) = None"
  "periodic_tasks unopened_app = [0]" "app_bus unopened_app = None"
  "thread (objs unopened_app ! 0) = Some LoopTest"
  by (simp_all add: unopened_app_def scenario_defs)

theorem bus_reference_fixed_witness:
  "0 < length (objs unopened_app) \<and> bus (objs unopened_app ! 0) = None \<and>
   (\<exists>a'. exec (\<lambda>n. SendOk) open_driver
            [SetupCanBus, AddMessage form_200_new, ThreadStep 0, StartCyclic, StopCyclic]
            unopened_app = Some a' \<and>
          0 < length (objs a') \<and> bus (objs a' ! 0) = None)"
proof -
  have h: "0 < length (objs unopened_app)" by (simp add: unopened_app_facts)
  show ?thesis
    using bus_reference_fixed[OF h, of "\<lambda>n. SendOk" open_driver
        "[SetupCanBus, AddMessage form_200_new, ThreadStep 0, StartCyclic, StopCyclic]"]
      unopened_app_facts
    by auto
qed

text \<open>
  Claim C2 says that a transmitter whose bus reference is \<^verbatim>\<open>None\<close> at tick time
  retries after a second and does not terminate, so that a later successful open lets
  it resume sending. For the message added while no bus is open: after two steps the
  thread has printed, slept and finished; the bus is then opened, and the thread stays
  finished, its bus reference stays \<^verbatim>\<open>None\<close>, and nothing is ever sent.
\<close>

theorem no_bus_thread_exits:
  "\<exists>a'. exec (\<lambda>n. SendOk) open_driver
           [ThreadStep 0, ThreadStep 0, SetupCanBus, ThreadStep 0, ThreadStep 0, ThreadStep 0]
           unopened_app = Some a' \<and>
         app_bus a' = Some 0 \<and> thread (objs a' ! 0) = Some Exited \<and>
         bus (objs a' ! 0) = None \<and>
         trace a' = [Printed BusNotInitialized, Slept 1,
                     Printed (BusInitializedLine ''can0'' 250000)]"
  by (simp add: unopened_app_def scenario_defs thread_step_def run_step_def Let_def)

text \<open>
  Claim C2, as amended. For every running transmitter whose bus reference is
  \<^verbatim>\<open>None\<close> at tick time, the cycle prints the line \<^verbatim>\<open>CAN bus is not initialized!\<close>
  and waits one second, without sending; its bus reference stays \<^verbatim>\<open>None\<close>, it never
  sends, and opening the bus of the application changes no transmitter object.
\<close>

theorem no_bus_tick:
  assumes "thread t = Some LoopTest" "running t" "bus t = None"
  shows "(\<exists>t'. run_steps env 2 (t, tr) = (t', tr @ [Printed BusNotInitialized, Slept 1]) \<and>
            bus t' = None) \<and>
         (\<forall>k. n_sends (snd (run_steps env k (t, tr))) = n_sends tr) \<and>
         objs (snd (setup_can_bus drv a)) = objs a"
  using assms
  by (simp add: numeral_2_eq_2 run_step_def no_bus_steps_sends objs_setup_can_bus)

theorem no_bus_tick_witness:
  "thread no_bus_task = Some LoopTest \<and> running no_bus_task \<and> bus no_bus_task = None \<and>
   (\<exists>t'. run_steps (\<lambda>n. SendOk) 2 (no_bus_task, []) =
            (t', [Printed BusNotInitialized, Slept 1]) \<and> bus t' = None)"
proof -
  have h: "thread no_bus_task = Some LoopTest" "running no_bus_task" "bus no_bus_task = None"
    by (simp_all add: no_bus_task_def start_def PeriodicTask_init_def)
  show ?thesis
    using no_bus_tick[OF h, of "\<lambda>n. SendOk" "[]"] h by simp
qed

subsection \<open>Adding a message for the same identifier again\<close>


lemma find_task_None: "find_task a c = None \<Longrightarrow> count_id a c = 0"
  by (auto simp: find_task_def count_id_def find_None_iff filter_empty_conv)













end
